theory Spec2Isabelle
  imports Complex_Main "HOL-Library.Sublist"
begin

section \<open>The retry engine of src/index.js\<close>

text \<open>
  The development embeds \<^verbatim>\<open>RETRY_CONFIG\<close>, \<^verbatim>\<open>withRetry\<close> and
  \<^verbatim>\<open>isRetryableError\<close> (src/index.js, lines 10 to 67).

  Conventions of the embedding:
  \<^item> JavaScript is untyped, so one datatype of values serves for the fields of a policy
    object and for what an operation rejects with. A finite number is an exact rational;
    rounding and the infinities of IEEE doubles are outside the model.
  \<^item> A string is a list of 8-bit characters, and lower-casing acts on the ASCII letters.
  \<^item> An operation is opaque: it is given by how its n-th invocation settles
    (n = 1, 2, ...). Every invocation is assumed to settle.
  \<^item> \<^verbatim>\<open>sleep\<close> and the invocations are effects; the state records the number of
    invocations, the arguments handed to \<^verbatim>\<open>sleep\<close>, and the order of both. What is
    recorded of a sleep is its argument, not the time that passes.
    The call of \<^verbatim>\<open>logger.warn\<close> has no influence on control flow or on these
    effects and is left out.
  \<^item> A policy argument is either absent (\<^verbatim>\<open>undefined\<close>) or an object; a field that
    the object lacks reads as \<^verbatim>\<open>undefined\<close>.
\<close>

subsection \<open>Values\<close>

text \<open>
  \<open>Obj i m\<close> is an object with identity \<open>i\<close> whose property \<^verbatim>\<open>message\<close> is the
  string \<open>m\<close>, or is missing (or not a string) when \<open>m = None\<close>.
\<close>

datatype js_value = Undefined | NaN | Num rat | Obj nat "string option"

text \<open>The one exception the engine itself can raise: reading \<^verbatim>\<open>toLowerCase\<close> off a
  missing message.\<close>

datatype js_exception = TypeError

fun ToNumber :: "js_value \<Rightarrow> rat option" where
  "ToNumber (Num r) = Some r"
| "ToNumber Undefined = None"
| "ToNumber NaN = None"
| "ToNumber (Obj i m) = None"

text \<open>\<^verbatim>\<open>a <= b\<close>: false as soon as one side is not a number.\<close>

definition js_le :: "js_value \<Rightarrow> js_value \<Rightarrow> bool" where
  "js_le a b =
     (case ToNumber a of None \<Rightarrow> False
      | Some x \<Rightarrow> (case ToNumber b of None \<Rightarrow> False | Some y \<Rightarrow> x \<le> y))"

text \<open>\<^verbatim>\<open>a === b\<close>: no conversion; \<^verbatim>\<open>NaN\<close> equals nothing; objects by identity.\<close>

fun js_strict_eq :: "js_value \<Rightarrow> js_value \<Rightarrow> bool" where
  "js_strict_eq Undefined Undefined = True"
| "js_strict_eq (Num x) (Num y) = (x = y)"
| "js_strict_eq (Obj i m) (Obj j n) = (i = j)"
| "js_strict_eq a b = False"

text \<open>\<^verbatim>\<open>a * b\<close> and \<^verbatim>\<open>Math.min(a, b)\<close>: \<^verbatim>\<open>NaN\<close> as soon as one side is not a
  number.\<close>

definition js_mul :: "js_value \<Rightarrow> js_value \<Rightarrow> js_value" where
  "js_mul a b =
     (case ToNumber a of None \<Rightarrow> NaN
      | Some x \<Rightarrow> (case ToNumber b of None \<Rightarrow> NaN | Some y \<Rightarrow> Num (x * y)))"

definition Math_min :: "js_value \<Rightarrow> js_value \<Rightarrow> js_value" where
  "Math_min a b =
     (case ToNumber a of None \<Rightarrow> NaN
      | Some x \<Rightarrow> (case ToNumber b of None \<Rightarrow> NaN | Some y \<Rightarrow> Num (min x y)))"

subsection \<open>Strings\<close>

definition toLowerCase_char :: "char \<Rightarrow> char" where
  "toLowerCase_char c =
     (case map_of (zip ''ABCDEFGHIJKLMNOPQRSTUVWXYZ'' ''abcdefghijklmnopqrstuvwxyz'') c of
        Some l \<Rightarrow> l
      | None \<Rightarrow> c)"

definition toLowerCase :: "string \<Rightarrow> string" where
  "toLowerCase s = map toLowerCase_char s"

text \<open>\<^verbatim>\<open>s.includes(t)\<close>: \<open>t\<close> occurs in \<open>s\<close> as a contiguous substring.\<close>

fun includes_str :: "string \<Rightarrow> string \<Rightarrow> bool" where
  "includes_str [] t = (t = [])"
| "includes_str (c # s) t = (prefix t (c # s) \<or> includes_str s t)"

subsection \<open>The classifier\<close>

definition retryableErrors :: "string list" where
  "retryableErrors =
     [''timeout'',
      ''network error'',
      ''nonce too low'',
      ''transaction underpriced'',
      ''insufficient funds for gas'',
      ''replacement fee too low'',
      ''rate limit exceeded'',
      ''Internal JSON-RPC error'',
      ''connection reset'',
      ''too many requests'']"

text \<open>
  \<^verbatim>\<open>error.message.toLowerCase()\<close> raises a TypeError unless \<^verbatim>\<open>error\<close> is an object
  with a string for its message: \<^verbatim>\<open>undefined\<close> has no properties, and a number or an
  object without the property yields \<^verbatim>\<open>undefined\<close> for \<^verbatim>\<open>.message\<close>.
\<close>

fun isRetryableError :: "js_value \<Rightarrow> js_exception + bool" where
  "isRetryableError (Obj i (Some message)) =
     (let errorMessage = toLowerCase message
      in Inr (list_ex (\<lambda>msg. includes_str errorMessage (toLowerCase msg)) retryableErrors))"
| "isRetryableError (Obj i None) = Inl TypeError"
| "isRetryableError Undefined = Inl TypeError"
| "isRetryableError NaN = Inl TypeError"
| "isRetryableError (Num r) = Inl TypeError"

subsection \<open>The policy and its default\<close>

record policy =
  maxAttempts :: js_value
  initialDelay :: js_value
  maxDelay :: js_value
  backoffFactor :: js_value

definition RETRY_CONFIG :: policy where
  "RETRY_CONFIG =
     \<lparr>maxAttempts = Num 3, initialDelay = Num 1000, maxDelay = Num 10000,
      backoffFactor = Num 2\<rparr>"

text \<open>
  The parameter \<^verbatim>\<open>{ maxAttempts, initialDelay, maxDelay, backoffFactor } = RETRY_CONFIG\<close>:
  the default stands in for an argument that is not passed (\<open>None\<close>); an object that is
  passed is destructured as it is, and a property it lacks is bound to \<^verbatim>\<open>undefined\<close>
  (the field is \<open>Undefined\<close>).
\<close>

fun destructure :: "policy option \<Rightarrow> policy" where
  "destructure None = RETRY_CONFIG"
| "destructure (Some p) = p"

subsection \<open>Operations, state and results\<close>

datatype 'a settled = Resolved 'a | Rejected js_value

type_synonym 'a operation = "nat \<Rightarrow> 'a settled"

text \<open>The effects that can be observed from outside: the \<open>n\<close>-th invocation of the
  operation, and a call of \<^verbatim>\<open>sleep\<close> with its argument.\<close>

datatype event = Invoked nat | Slept js_value

text \<open>The local variables of \<^verbatim>\<open>withRetry\<close>, and the effects so far: the number of
  invocations, the arguments of \<^verbatim>\<open>sleep\<close>, and both in the order they happened.\<close>

record state =
  attempt :: nat
  delay :: js_value
  lastError :: js_value
  calls :: nat
  sleeps :: "js_value list"
  trace :: "event list"

text \<open>\<^verbatim>\<open>await operation()\<close> and \<^verbatim>\<open>await sleep(ms)\<close>, as effects on the state.\<close>

definition invoke :: "state \<Rightarrow> state" where
  "invoke s = s\<lparr>calls := Suc (calls s), trace := trace s @ [Invoked (Suc (calls s))]\<rparr>"

definition sleep :: "js_value \<Rightarrow> state \<Rightarrow> state" where
  "sleep ms s = s\<lparr>sleeps := sleeps s @ [ms], trace := trace s @ [Slept ms]\<rparr>"

datatype 'a completion = Returned 'a | Threw js_value | Raised js_exception

text \<open>Where \<^verbatim>\<open>withRetry\<close> is left: line 24, line 30, line 65 (called from line 29), line 47.\<close>

datatype exit_point = ReturnInTry | ThrowInCatch | ThrowInClassifier | ThrowAfterLoop

record 'a result =
  outcome :: "'a completion"
  exit_at :: exit_point
  invocations :: nat
  slept :: "js_value list"
  events :: "event list"

definition finish :: "'a completion \<Rightarrow> exit_point \<Rightarrow> state \<Rightarrow> 'a result" where
  "finish c e s =
     \<lparr>outcome = c, exit_at = e, invocations = calls s, slept = sleeps s, events = trace s\<rparr>"

subsection \<open>The loop\<close>

function loop :: "policy \<Rightarrow> 'a operation \<Rightarrow> state \<Rightarrow> 'a result" where
  "loop p operation s =
     (if js_le (Num (of_nat (attempt s))) (maxAttempts p) then
        (case operation (Suc (calls s)) of
           Resolved v \<Rightarrow> finish (Returned v) ReturnInTry (invoke s)
         | Rejected error \<Rightarrow>
             (case isRetryableError error of
                Inl x \<Rightarrow>
                  finish (Raised x) ThrowInClassifier ((invoke s)\<lparr>lastError := error\<rparr>)
              | Inr retryable \<Rightarrow>
                  if \<not> retryable \<or> js_strict_eq (Num (of_nat (attempt s))) (maxAttempts p)
                  then finish (Threw error) ThrowInCatch ((invoke s)\<lparr>lastError := error\<rparr>)
                  else loop p operation
                         ((sleep (delay s) ((invoke s)\<lparr>lastError := error\<rparr>))
                            \<lparr>delay := Math_min (js_mul (delay s) (backoffFactor p)) (maxDelay p),
                             attempt := Suc (attempt s)\<rparr>)))
      else finish (Threw (lastError s)) ThrowAfterLoop s)"
  by pat_completeness auto

text \<open>The loop ends: the counter is bounded by the integer part of \<^verbatim>\<open>maxAttempts\<close>,
  and the loop is not entered at all when \<^verbatim>\<open>maxAttempts\<close> is not a number.\<close>

definition budget :: "policy \<Rightarrow> nat" where
  "budget p = (case ToNumber (maxAttempts p) of None \<Rightarrow> 0 | Some m \<Rightarrow> nat \<lfloor>m\<rfloor>)"

termination loop
proof (relation "measure (\<lambda>(p, operation, s). Suc (budget p) - attempt s)")
  show "wf (measure (\<lambda>(p, operation :: 'a operation, s). Suc (budget p) - attempt s))"
    by simp
next
  fix p :: policy and operation :: "'a operation" and s :: state
    and error :: js_value and retryable :: bool
  assume "js_le (Num (of_nat (attempt s))) (maxAttempts p)"
  then obtain m where m: "ToNumber (maxAttempts p) = Some m" and le: "of_nat (attempt s) \<le> m"
    by (auto simp: js_le_def split: option.splits)
  from le have "int (attempt s) \<le> \<lfloor>m\<rfloor>"
    by (simp add: le_floor_iff)
  then have "attempt s \<le> budget p"
    using m by (simp add: budget_def)
  then show "((p, operation,
               (sleep (delay s) ((invoke s)\<lparr>lastError := error\<rparr>))
                 \<lparr>delay := Math_min (js_mul (delay s) (backoffFactor p)) (maxDelay p),
                  attempt := Suc (attempt s)\<rparr>),
              (p, operation, s))
             \<in> measure (\<lambda>(p, operation, s). Suc (budget p) - attempt s)"
    by simp
qed

declare loop.simps [simp del]

subsection \<open>withRetry\<close>

definition withRetry :: "'a operation \<Rightarrow> policy option \<Rightarrow> 'a result" where
  "withRetry operation arg =
     (let p = destructure arg
      in loop p operation
           \<lparr>attempt = 1, delay = initialDelay p, lastError = Undefined, calls = 0,
            sleeps = [], trace = []\<rparr>)"

subsection \<open>Auxiliary notions for the statements\<close>

text \<open>The state in which \<^verbatim>\<open>withRetry\<close> enters the loop.\<close>

definition start :: "policy \<Rightarrow> state" where
  "start p =
     \<lparr>attempt = 1, delay = initialDelay p, lastError = Undefined, calls = 0, sleeps = [],
      trace = []\<rparr>"

text \<open>The state with which the loop goes round again after a retryable failure.\<close>

definition retry_state :: "policy \<Rightarrow> js_value \<Rightarrow> state \<Rightarrow> state" where
  "retry_state p error s =
     (sleep (delay s) ((invoke s)\<lparr>lastError := error\<rparr>))
       \<lparr>delay := Math_min (js_mul (delay s) (backoffFactor p)) (maxDelay p),
        attempt := Suc (attempt s)\<rparr>"

text \<open>The first \<open>k\<close> values of the variable \<^verbatim>\<open>delay\<close>, starting from \<open>d\<close>.\<close>

fun backoff_delays :: "policy \<Rightarrow> js_value \<Rightarrow> nat \<Rightarrow> js_value list" where
  "backoff_delays p d 0 = []"
| "backoff_delays p d (Suc k) =
     d # backoff_delays p (Math_min (js_mul d (backoffFactor p)) (maxDelay p)) k"

text \<open>The order of events of a run that makes its invocations from the \<open>k\<close>-th on
  and sleeps \<open>ds\<close>: every sleep lies between two consecutive invocations.\<close>

fun timeline :: "nat \<Rightarrow> js_value list \<Rightarrow> event list" where
  "timeline k [] = [Invoked k]"
| "timeline k (d # ds) = Invoked k # Slept d # timeline (Suc k) ds"

text \<open>An operation given by a script: its first invocations settle as listed, every
  later one as \<open>d\<close>.\<close>

definition script :: "'a settled list \<Rightarrow> 'a settled \<Rightarrow> 'a operation" where
  "script xs d n = (if 1 \<le> n \<and> n \<le> length xs then xs ! (n - 1) else d)"

text \<open>
  The set of the specification, in its words: the members are all in lower case.
  \<open>retryableErrors\<close> above is the list of the source.
\<close>

definition RetryableErrorSet :: "string list" where
  "RetryableErrorSet =
     [''timeout'', ''network error'', ''nonce too low'', ''transaction underpriced'',
      ''insufficient funds for gas'', ''replacement fee too low'', ''rate limit exceeded'',
      ''internal json-rpc error'', ''connection reset'', ''too many requests'']"

text \<open>
  The classifier of the specification, in its words: lower-case the message, and answer
  whether it contains a member of the set as a substring.
\<close>

definition isRetryable_spec :: "string \<Rightarrow> bool" where
  "isRetryable_spec message =
     (\<exists>member \<in> set RetryableErrorSet. sublist member (toLowerCase message))"

text \<open>
  Defaulting by field, in the words of the specification: each field that the policy
  object does not supply takes the value of the default policy.
\<close>

definition default_field :: "js_value \<Rightarrow> js_value \<Rightarrow> js_value" where
  "default_field v d = (if v = Undefined then d else v)"

definition per_field_defaults :: "policy \<Rightarrow> policy" where
  "per_field_defaults p =
     \<lparr>maxAttempts = default_field (maxAttempts p) (maxAttempts RETRY_CONFIG),
      initialDelay = default_field (initialDelay p) (initialDelay RETRY_CONFIG),
      maxDelay = default_field (maxDelay p) (maxDelay RETRY_CONFIG),
      backoffFactor = default_field (backoffFactor p) (backoffFactor RETRY_CONFIG)\<rparr>"

section \<open>One turn of the loop\<close>

lemma js_le_budget:
  assumes "js_le (Num (of_nat a)) (maxAttempts p)"
  shows "a \<le> budget p"
proof -
  from assms obtain m where m: "ToNumber (maxAttempts p) = Some m" and le: "of_nat a \<le> m"
    by (auto simp: js_le_def split: option.splits)
  from le have "int a \<le> \<lfloor>m\<rfloor>"
    by (simp add: le_floor_iff)
  then show ?thesis
    using m by (simp add: budget_def)
qed

lemma loop_exit:
  "\<not> js_le (Num (of_nat (attempt s))) (maxAttempts p) \<Longrightarrow>
   loop p operation s = finish (Threw (lastError s)) ThrowAfterLoop s"
  by (subst loop.simps) simp

lemma loop_resolved:
  "js_le (Num (of_nat (attempt s))) (maxAttempts p) \<Longrightarrow>
   operation (Suc (calls s)) = Resolved v \<Longrightarrow>
   loop p operation s = finish (Returned v) ReturnInTry (invoke s)"
  by (subst loop.simps) simp

lemma loop_classifier:
  "js_le (Num (of_nat (attempt s))) (maxAttempts p) \<Longrightarrow>
   operation (Suc (calls s)) = Rejected e \<Longrightarrow>
   isRetryableError e = Inl x \<Longrightarrow>
   loop p operation s =
     finish (Raised x) ThrowInClassifier ((invoke s)\<lparr>lastError := e\<rparr>)"
  by (subst loop.simps) simp

lemma loop_throw:
  "js_le (Num (of_nat (attempt s))) (maxAttempts p) \<Longrightarrow>
   operation (Suc (calls s)) = Rejected e \<Longrightarrow>
   isRetryableError e = Inr b \<Longrightarrow>
   \<not> b \<or> js_strict_eq (Num (of_nat (attempt s))) (maxAttempts p) \<Longrightarrow>
   loop p operation s =
     finish (Threw e) ThrowInCatch ((invoke s)\<lparr>lastError := e\<rparr>)"
  by (subst loop.simps) auto

lemma loop_retry:
  "js_le (Num (of_nat (attempt s))) (maxAttempts p) \<Longrightarrow>
   operation (Suc (calls s)) = Rejected e \<Longrightarrow>
   isRetryableError e = Inr True \<Longrightarrow>
   \<not> js_strict_eq (Num (of_nat (attempt s))) (maxAttempts p) \<Longrightarrow>
   loop p operation s = loop p operation (retry_state p e s)"
  by (subst loop.simps) (simp add: retry_state_def)

lemma loop_induct_retry [case_names step]:
  assumes step:
    "\<And>s. (\<And>e. js_le (Num (of_nat (attempt s))) (maxAttempts p) \<Longrightarrow>
                operation (Suc (calls s)) = Rejected e \<Longrightarrow>
                isRetryableError e = Inr True \<Longrightarrow>
                \<not> js_strict_eq (Num (of_nat (attempt s))) (maxAttempts p) \<Longrightarrow>
                P (retry_state p e s)) \<Longrightarrow> P s"
  shows "P s"
proof (induction "Suc (budget p) - attempt s" arbitrary: s rule: less_induct)
  case less
  show ?case
  proof (rule step)
    fix e
    assume "js_le (Num (of_nat (attempt s))) (maxAttempts p)"
    then have "attempt s \<le> budget p"
      by (rule js_le_budget)
    then have "Suc (budget p) - attempt (retry_state p e s) < Suc (budget p) - attempt s"
      by (simp add: retry_state_def)
    then show "P (retry_state p e s)"
      by (rule less)
  qed
qed

lemma loop_cases [case_names exit resolved classifier throw retry]:
  obtains
    (exit) "\<not> js_le (Num (of_nat (attempt s))) (maxAttempts p)"
      "loop p operation s = finish (Threw (lastError s)) ThrowAfterLoop s"
  | (resolved) v where "js_le (Num (of_nat (attempt s))) (maxAttempts p)"
      "operation (Suc (calls s)) = Resolved v"
      "loop p operation s = finish (Returned v) ReturnInTry (invoke s)"
  | (classifier) e x where "js_le (Num (of_nat (attempt s))) (maxAttempts p)"
      "operation (Suc (calls s)) = Rejected e" "isRetryableError e = Inl x"
      "loop p operation s =
         finish (Raised x) ThrowInClassifier ((invoke s)\<lparr>lastError := e\<rparr>)"
  | (throw) e b where "js_le (Num (of_nat (attempt s))) (maxAttempts p)"
      "operation (Suc (calls s)) = Rejected e" "isRetryableError e = Inr b"
      "\<not> b \<or> js_strict_eq (Num (of_nat (attempt s))) (maxAttempts p)"
      "loop p operation s =
         finish (Threw e) ThrowInCatch ((invoke s)\<lparr>lastError := e\<rparr>)"
  | (retry) e where "js_le (Num (of_nat (attempt s))) (maxAttempts p)"
      "operation (Suc (calls s)) = Rejected e" "isRetryableError e = Inr True"
      "\<not> js_strict_eq (Num (of_nat (attempt s))) (maxAttempts p)"
      "loop p operation s = loop p operation (retry_state p e s)"
proof (cases "js_le (Num (of_nat (attempt s))) (maxAttempts p)")
  case False
  show ?thesis
    by (rule exit [OF False loop_exit [OF False]])
next
  case le: True
  show ?thesis
  proof (cases "operation (Suc (calls s))")
    case (Resolved v)
    show ?thesis
      by (rule resolved [OF le Resolved loop_resolved [where operation = operation, OF le Resolved]])
  next
    case rej: (Rejected e)
    show ?thesis
    proof (cases "isRetryableError e")
      case (Inl x)
      show ?thesis
        by (rule classifier [OF le rej Inl loop_classifier [where operation = operation, OF le rej Inl]])
    next
      case (Inr b)
      show ?thesis
      proof (cases "\<not> b \<or> js_strict_eq (Num (of_nat (attempt s))) (maxAttempts p)")
        case True
        show ?thesis
          by (rule throw [OF le rej Inr True loop_throw [where operation = operation, OF le rej Inr True]])
      next
        case False
        then have b: "isRetryableError e = Inr True"
          and ne: "\<not> js_strict_eq (Num (of_nat (attempt s))) (maxAttempts p)"
          using Inr by simp_all
        show ?thesis
          by (rule retry [OF le rej b ne loop_retry [where operation = operation, OF le rej b ne]])
      qed
    qed
  qed
qed


lemma retry_state_simps [simp]:
  "attempt (retry_state p e s) = Suc (attempt s)"
  "calls (retry_state p e s) = Suc (calls s)"
  "lastError (retry_state p e s) = e"
  "sleeps (retry_state p e s) = sleeps s @ [delay s]"
  "delay (retry_state p e s) = Math_min (js_mul (delay s) (backoffFactor p)) (maxDelay p)"
  "trace (retry_state p e s) = trace s @ [Invoked (Suc (calls s)), Slept (delay s)]"
  by (simp_all add: retry_state_def invoke_def sleep_def)

lemma invoke_simps [simp]:
  "attempt (invoke s) = attempt s"
  "calls (invoke s) = Suc (calls s)"
  "lastError (invoke s) = lastError s"
  "sleeps (invoke s) = sleeps s"
  "delay (invoke s) = delay s"
  "trace (invoke s) = trace s @ [Invoked (Suc (calls s))]"
  by (simp_all add: invoke_def)

lemma finish_simps [simp]:
  "outcome (finish c x s) = c"
  "exit_at (finish c x s) = x"
  "invocations (finish c x s) = calls s"
  "slept (finish c x s) = sleeps s"
  "events (finish c x s) = trace s"
  by (simp_all add: finish_def)

lemma length_backoff_delays [simp]: "length (backoff_delays p d k) = k"
  by (induction k arbitrary: d) simp_all

lemma loop_slept_ex: "\<exists>k. slept (loop p operation s) = sleeps s @ backoff_delays p (delay s) k"
proof (induction s rule: loop_induct_retry [where p = p and operation = operation])
  case (step s)
  show ?case
  proof (cases rule: loop_cases [of s p operation])
    case exit
    have "slept (loop p operation s) = sleeps s @ backoff_delays p (delay s) 0"
      unfolding exit(2) by simp
    then show ?thesis ..
  next
    case (resolved v)
    have "slept (loop p operation s) = sleeps s @ backoff_delays p (delay s) 0"
      unfolding resolved(3) by simp
    then show ?thesis ..
  next
    case (classifier e x)
    have "slept (loop p operation s) = sleeps s @ backoff_delays p (delay s) 0"
      unfolding classifier(4) by simp
    then show ?thesis ..
  next
    case (throw e b)
    have "slept (loop p operation s) = sleeps s @ backoff_delays p (delay s) 0"
      unfolding throw(5) by simp
    then show ?thesis ..
  next
    case (retry e)
    from step [OF retry(1-4)] obtain k
      where "slept (loop p operation (retry_state p e s))
               = sleeps (retry_state p e s) @ backoff_delays p (delay (retry_state p e s)) k"
      by blast
    then have "slept (loop p operation s) = sleeps s @ backoff_delays p (delay s) (Suc k)"
      unfolding retry(5) by simp
    then show ?thesis ..
  qed
qed

lemma loop_slept_length: "length (sleeps s) \<le> length (slept (loop p operation s))"
proof -
  obtain k where k: "slept (loop p operation s) = sleeps s @ backoff_delays p (delay s) k"
    using loop_slept_ex by blast
  then show ?thesis
    by simp
qed

lemma loop_invocations:
  "invocations (loop p operation s) =
     calls s + (length (slept (loop p operation s)) - length (sleeps s))
       + (if exit_at (loop p operation s) = ThrowAfterLoop then 0 else 1)"
proof (induction s rule: loop_induct_retry [where p = p and operation = operation])
  case (step s)
  show ?case
  proof (cases rule: loop_cases [of s p operation])
    case exit
    show ?thesis
      unfolding exit(2) by simp
  next
    case (resolved v)
    show ?thesis
      unfolding resolved(3) by simp
  next
    case (classifier e x)
    show ?thesis
      unfolding classifier(4) by simp
  next
    case (throw e b)
    show ?thesis
      unfolding throw(5) by simp
  next
    case (retry e)
    let ?r = "loop p operation (retry_state p e s)"
    have len: "Suc (length (sleeps s)) \<le> length (slept ?r)"
      using loop_slept_length [of "retry_state p e s" p operation] by simp
    have "invocations ?r =
            Suc (calls s) + (length (slept ?r) - Suc (length (sleeps s)))
              + (if exit_at ?r = ThrowAfterLoop then 0 else 1)"
      using step [OF retry(1-4)] by simp
    also have "\<dots> = calls s + (length (slept ?r) - length (sleeps s))
              + (if exit_at ?r = ThrowAfterLoop then 0 else 1)"
      using len by simp
    finally show ?thesis
      unfolding retry(5) .
  qed
qed

lemma loop_earlier_attempts:
  assumes "calls s < k"
    and "k < invocations (loop p operation s)
         \<or> (k = invocations (loop p operation s) \<and> exit_at (loop p operation s) = ThrowAfterLoop)"
  shows "\<exists>e. operation k = Rejected e \<and> isRetryableError e = Inr True"
  using assms
proof (induction s rule: loop_induct_retry [where p = p and operation = operation])
  case (step s)
  show ?case
  proof (cases rule: loop_cases [of s p operation])
    case (retry e)
    show ?thesis
    proof (cases "k = Suc (calls s)")
      case True
      with retry show ?thesis by simp
    next
      case False
      with step.prems(1) have "calls (retry_state p e s) < k" by simp
      moreover from step.prems(2)
      have "k < invocations (loop p operation (retry_state p e s))
         \<or> (k = invocations (loop p operation (retry_state p e s))
             \<and> exit_at (loop p operation (retry_state p e s)) = ThrowAfterLoop)"
        unfolding retry(5) .
      ultimately show ?thesis
        by (rule step.IH [OF retry(1-4)])
    qed
  qed (use step.prems in auto)
qed

lemma loop_final_attempt:
  assumes "attempt s = Suc (calls s)"
  shows "case exit_at (loop p operation s) of
           ReturnInTry \<Rightarrow>
             (\<exists>v. operation (invocations (loop p operation s)) = Resolved v
                  \<and> outcome (loop p operation s) = Returned v)
         | ThrowInCatch \<Rightarrow>
             (\<exists>e b. operation (invocations (loop p operation s)) = Rejected e
                  \<and> isRetryableError e = Inr b
                  \<and> (\<not> b \<or> js_strict_eq (Num (of_nat (invocations (loop p operation s))))
                                (maxAttempts p))
                  \<and> outcome (loop p operation s) = Threw e)
         | ThrowInClassifier \<Rightarrow>
             (\<exists>e x. operation (invocations (loop p operation s)) = Rejected e
                  \<and> isRetryableError e = Inl x
                  \<and> outcome (loop p operation s) = Raised x)
         | ThrowAfterLoop \<Rightarrow>
             \<not> js_le (Num (of_nat (Suc (invocations (loop p operation s))))) (maxAttempts p)"
  using assms
proof (induction s rule: loop_induct_retry [where p = p and operation = operation])
  case (step s)
  show ?case
  proof (cases rule: loop_cases [of s p operation])
    case exit
    then show ?thesis
      using step.prems by simp
  next
    case (resolved v)
    then show ?thesis
      by simp
  next
    case (classifier e x)
    then show ?thesis
      by simp
  next
    case (throw e b)
    then show ?thesis
      using step.prems by simp
  next
    case (retry e)
    have "attempt (retry_state p e s) = Suc (calls (retry_state p e s))"
      using step.prems by simp
    from step.IH [OF retry(1-4) this] show ?thesis
      unfolding retry(5) .
  qed
qed

lemma loop_within_budget:
  assumes "maxAttempts p = Num (of_nat n)"
    and "attempt s \<le> n"
    and "attempt s = Suc (calls s)"
  shows "exit_at (loop p operation s) \<noteq> ThrowAfterLoop
         \<and> invocations (loop p operation s) \<le> n"
  using assms(2,3)
proof (induction s rule: loop_induct_retry [where p = p and operation = operation])
  case (step s)
  show ?case
  proof (cases rule: loop_cases [of s p operation])
    case exit
    with step.prems assms(1) show ?thesis
      by (simp add: js_le_def)
  next
    case (retry e)
    from retry(4) assms(1) have "attempt s \<noteq> n"
      by auto
    with step.prems have "attempt (retry_state p e s) \<le> n"
      and "attempt (retry_state p e s) = Suc (calls (retry_state p e s))"
      by simp_all
    from step.IH [OF retry(1-4) this] show ?thesis
      unfolding retry(5) .
  qed (use step.prems in auto)
qed


lemma timeline_not_Nil [simp]: "timeline k ds \<noteq> []"
  by (cases ds) simp_all

lemma loop_events:
  "events (loop p operation s) =
     trace s @
       (if exit_at (loop p operation s) = ThrowAfterLoop
        then butlast (timeline (Suc (calls s))
                        (drop (length (sleeps s)) (slept (loop p operation s))))
        else timeline (Suc (calls s)) (drop (length (sleeps s)) (slept (loop p operation s))))"
proof (induction s rule: loop_induct_retry [where p = p and operation = operation])
  case (step s)
  show ?case
  proof (cases rule: loop_cases [of s p operation])
    case exit
    show ?thesis
      unfolding exit(2) by simp
  next
    case (resolved v)
    show ?thesis
      unfolding resolved(3) by simp
  next
    case (classifier e x)
    show ?thesis
      unfolding classifier(4) by simp
  next
    case (throw e b)
    show ?thesis
      unfolding throw(5) by simp
  next
    case (retry e)
    let ?s' = "retry_state p e s"
    let ?r = "loop p operation ?s'"
    obtain k where "slept ?r = sleeps ?s' @ backoff_delays p (delay ?s') k"
      using loop_slept_ex by blast
    then have d: "drop (length (sleeps s)) (slept ?r)
                    = delay s # drop (length (sleeps ?s')) (slept ?r)"
      by simp
    show ?thesis
      unfolding retry(5) d using step [OF retry(1-4)] by simp
  qed
qed

section \<open>Facts about a whole run\<close>

lemma withRetry_start:
  "withRetry operation arg = loop (destructure arg) operation (start (destructure arg))"
  by (simp add: withRetry_def start_def Let_def)

lemma start_simps [simp]:
  "attempt (start p) = Suc 0"
  "delay (start p) = initialDelay p"
  "lastError (start p) = Undefined"
  "calls (start p) = 0"
  "sleeps (start p) = []"
  "trace (start p) = []"
  by (simp_all add: start_def)

lemma js_le_Num [simp]: "js_le (Num x) (Num y) = (x \<le> y)"
  by (simp add: js_le_def)

lemma withRetry_slept_ex:
  "\<exists>k. slept (withRetry operation arg)
        = backoff_delays (destructure arg) (initialDelay (destructure arg)) k"
  using loop_slept_ex [of "destructure arg" operation "start (destructure arg)"]
  by (simp add: withRetry_start)

lemma withRetry_invocations:
  "invocations (withRetry operation arg) =
     length (slept (withRetry operation arg))
       + (if exit_at (withRetry operation arg) = ThrowAfterLoop then 0 else 1)"
  using loop_invocations [of "destructure arg" operation "start (destructure arg)"]
  by (simp add: withRetry_start)

lemma withRetry_earlier_attempts:
  assumes "1 \<le> j" and "j < invocations (withRetry operation arg)"
  shows "\<exists>e. operation j = Rejected e \<and> isRetryableError e = Inr True"
proof (rule loop_earlier_attempts)
  show "calls (start (destructure arg)) < j"
    using assms(1) by simp
  show "j < invocations (loop (destructure arg) operation (start (destructure arg))) \<or>
    j = invocations (loop (destructure arg) operation (start (destructure arg))) \<and>
    exit_at (loop (destructure arg) operation (start (destructure arg))) = ThrowAfterLoop"
    using assms(2) by (simp add: withRetry_start)
qed

lemma withRetry_events:
  "events (withRetry operation arg) =
     (if exit_at (withRetry operation arg) = ThrowAfterLoop
      then butlast (timeline 1 (slept (withRetry operation arg)))
      else timeline 1 (slept (withRetry operation arg)))"
  using loop_events [of "destructure arg" operation "start (destructure arg)"]
  by (simp add: withRetry_start)

lemma withRetry_entered:
  assumes "js_le (Num 1) (maxAttempts (destructure arg))"
  shows "1 \<le> invocations (withRetry operation arg)"
proof -
  let ?p = "destructure arg"
  show ?thesis
  proof (cases rule: loop_cases [of "start ?p" ?p operation])
    case exit
    with assms show ?thesis by simp
  next
    case (retry e)
    have "calls (retry_state ?p e (start ?p)) \<le> invocations (loop ?p operation (retry_state ?p e (start ?p)))"
      using loop_invocations [of ?p operation "retry_state ?p e (start ?p)"] by simp
    then show ?thesis
      unfolding withRetry_start retry(5) by simp
  qed (simp_all add: withRetry_start)
qed

section \<open>The classifier\<close>

lemma includes_str_sublist: "includes_str s t = sublist t s"
  by (induction s) (simp_all add: sublist_Cons_right)

lemma lowered_retryableErrors: "map toLowerCase retryableErrors = RetryableErrorSet"
  by code_simp

lemma isRetryableError_message:
  "isRetryableError (Obj i (Some message)) = Inr (isRetryable_spec message)"
proof -
  have "list_ex (\<lambda>msg. includes_str (toLowerCase message) (toLowerCase msg)) retryableErrors
          = (\<exists>member \<in> set (map toLowerCase retryableErrors).
               sublist member (toLowerCase message))"
    by (simp add: list_ex_iff includes_str_sublist)
  then show ?thesis
    by (simp add: isRetryable_spec_def lowered_retryableErrors)
qed

lemma isRetryableError_empty_message: "isRetryableError (Obj i (Some [])) = Inr False"
  by (simp add: isRetryableError_message isRetryable_spec_def RetryableErrorSet_def
      toLowerCase_def del: isRetryableError.simps)

text \<open>
  C3. For an error whose message is a string, \<open>isRetryableError\<close> answers true exactly
  when the lower-cased message contains a member of the set of the specification as a
  substring. The answer depends on the message only through its lower-cased form, the
  members of the source list are lower-cased before they are compared, and
  \<^verbatim>\<open>Network Error\<close> and \<^verbatim>\<open>NETWORK ERROR\<close> are both retryable.
\<close>

theorem isRetryableError_substring_match:
  "isRetryableError (Obj i (Some message)) = Inr (isRetryable_spec message)
   \<and> (toLowerCase message = toLowerCase message' \<longrightarrow>
        isRetryableError (Obj i (Some message)) = isRetryableError (Obj j (Some message')))
   \<and> isRetryableError (Obj i (Some ''Network Error'')) = Inr True
   \<and> isRetryableError (Obj i (Some ''NETWORK ERROR'')) = Inr True"
proof (intro conjI impI)
  show "isRetryableError (Obj i (Some message)) = Inr (isRetryable_spec message)"
    by (rule isRetryableError_message)
  show "isRetryableError (Obj i (Some message)) = isRetryableError (Obj j (Some message'))"
    if "toLowerCase message = toLowerCase message'"
    using that by (simp only: isRetryableError_message isRetryable_spec_def)
  show "isRetryableError (Obj i (Some ''Network Error'')) = Inr True"
    by code_simp
  show "isRetryableError (Obj i (Some ''NETWORK ERROR'')) = Inr True"
    by code_simp
qed

theorem isRetryableError_substring_match_witness:
  "isRetryableError (Obj 0 (Some ''Request TIMEOUT after 30s'')) = Inr True
   \<and> isRetryable_spec ''Request TIMEOUT after 30s''
   \<and> isRetryableError (Obj 0 (Some ''execution reverted'')) = Inr False
   \<and> \<not> isRetryable_spec ''execution reverted''
   \<and> isRetryableError (Obj 0 (Some ''INTERNAL JSON-RPC ERROR: header not found'')) = Inr True
   \<and> isRetryable_spec ''INTERNAL JSON-RPC ERROR: header not found''
   \<and> toLowerCase ''Network Error'' = toLowerCase ''NETWORK ERROR''
   \<and> isRetryableError (Obj 0 (Some ''Network Error''))
       = isRetryableError (Obj 1 (Some ''NETWORK ERROR''))"
proof -
  have d: "isRetryableError (Obj 0 (Some ''INTERNAL JSON-RPC ERROR: header not found'')) = Inr True"
    by code_simp
  from d isRetryableError_substring_match [of 0 "''INTERNAL JSON-RPC ERROR: header not found''"]
  have d': "isRetryable_spec ''INTERNAL JSON-RPC ERROR: header not found''"
    by simp
  have a: "isRetryableError (Obj 0 (Some ''Request TIMEOUT after 30s'')) = Inr True"
    by code_simp
  have b: "isRetryableError (Obj 0 (Some ''execution reverted'')) = Inr False"
    by code_simp
  have c: "toLowerCase ''Network Error'' = toLowerCase ''NETWORK ERROR''"
    by code_simp
  from a isRetryableError_substring_match [of 0 "''Request TIMEOUT after 30s''"]
  have a': "isRetryable_spec ''Request TIMEOUT after 30s''"
    by simp
  from b isRetryableError_substring_match [of 0 "''execution reverted''"]
  have b': "\<not> isRetryable_spec ''execution reverted''"
    by simp
  from c isRetryableError_substring_match [of 0 "''Network Error''" "''NETWORK ERROR''" 1]
  have c': "isRetryableError (Obj 0 (Some ''Network Error''))
       = isRetryableError (Obj 1 (Some ''NETWORK ERROR''))"
    by blast
  from a a' b b' c c' d d' show ?thesis
    by blast
qed

text \<open>
  C4, as the code has it. \<open>isRetryableError\<close> returns a boolean for every error whose
  message is a string, and that boolean is false for the empty message. It does not
  return for a value without a message string (an object that lacks the property, or
  \<^verbatim>\<open>undefined\<close>): reading \<^verbatim>\<open>toLowerCase\<close> off the missing message raises a TypeError.
\<close>

theorem isRetryableError_total_on_messages:
  "(\<exists>b. isRetryableError (Obj i (Some message)) = Inr b)
   \<and> isRetryableError (Obj i (Some [])) = Inr False
   \<and> isRetryableError (Obj i None) = Inl TypeError
   \<and> isRetryableError Undefined = Inl TypeError"
proof (intro conjI)
  show "\<exists>b. isRetryableError (Obj i (Some message)) = Inr b"
    unfolding isRetryableError_message by (rule exI) (rule refl)
  show "isRetryableError (Obj i (Some [])) = Inr False"
    by (rule isRetryableError_empty_message)
qed simp_all

text \<open>
  C4 as stated fails: for an error object without a message the classifier raises a
  TypeError where the claim has it return false.
\<close>

theorem isRetryableError_missing_message_counterexample:
  "isRetryableError (Obj 0 None) = Inl TypeError
   \<and> isRetryableError (Obj 0 None) \<noteq> Inr False"
  by simp

section \<open>The outcome of withRetry\<close>

text \<open>
  C1, as the code has it. For every operation and every policy whose \<^verbatim>\<open>maxAttempts\<close>
  is an integer \<open>n \<ge> 1\<close>, \<open>withRetry\<close> ends after \<open>k\<close> invocations with
  \<open>1 \<le> k \<le> n\<close>, every invocation before the \<open>k\<close>-th having failed with a
  retryable error. If the \<open>k\<close>-th invocation succeeds, its result is returned. If it
  fails with an error that the classifier can classify, exactly that error is thrown,
  and then the error is not retryable or \<open>k = n\<close>. If it fails with a value that has
  no message string, \<open>withRetry\<close> fails with the TypeError of the classifier and not
  with the value of the operation.
\<close>

theorem withRetry_outcome:
  assumes "maxAttempts (destructure arg) = Num (of_nat n)" and "1 \<le> n"
  shows "1 \<le> invocations (withRetry operation arg)
     \<and> invocations (withRetry operation arg) \<le> n
     \<and> (\<forall>j. 1 \<le> j \<and> j < invocations (withRetry operation arg) \<longrightarrow>
            (\<exists>e. operation j = Rejected e \<and> isRetryableError e = Inr True))
     \<and> (case operation (invocations (withRetry operation arg)) of
           Resolved v \<Rightarrow> outcome (withRetry operation arg) = Returned v
         | Rejected e \<Rightarrow>
             (case isRetryableError e of
                Inr retryable \<Rightarrow>
                  outcome (withRetry operation arg) = Threw e
                  \<and> (\<not> retryable \<or> invocations (withRetry operation arg) = n)
              | Inl x \<Rightarrow> outcome (withRetry operation arg) = Raised x))"
proof -
  let ?p = "destructure arg"
  let ?r = "withRetry operation arg"
  have r: "?r = loop ?p operation (start ?p)"
    by (rule withRetry_start)
  have budget: "exit_at ?r \<noteq> ThrowAfterLoop \<and> invocations ?r \<le> n"
    unfolding r by (rule loop_within_budget [OF assms(1)]) (use assms(2) in simp_all)
  then have pos: "1 \<le> invocations ?r"
    using withRetry_invocations [of operation arg] by simp
  have earlier: "\<forall>j. 1 \<le> j \<and> j < invocations ?r \<longrightarrow>
            (\<exists>e. operation j = Rejected e \<and> isRetryableError e = Inr True)"
    using withRetry_earlier_attempts by blast
  have final: "case exit_at ?r of
           ReturnInTry \<Rightarrow>
             (\<exists>v. operation (invocations ?r) = Resolved v \<and> outcome ?r = Returned v)
         | ThrowInCatch \<Rightarrow>
             (\<exists>e b. operation (invocations ?r) = Rejected e
                  \<and> isRetryableError e = Inr b
                  \<and> (\<not> b \<or> js_strict_eq (Num (of_nat (invocations ?r))) (maxAttempts ?p))
                  \<and> outcome ?r = Threw e)
         | ThrowInClassifier \<Rightarrow>
             (\<exists>e x. operation (invocations ?r) = Rejected e
                  \<and> isRetryableError e = Inl x
                  \<and> outcome ?r = Raised x)
         | ThrowAfterLoop \<Rightarrow>
             \<not> js_le (Num (of_nat (Suc (invocations ?r)))) (maxAttempts ?p)"
    unfolding r by (rule loop_final_attempt) simp
  have last: "case operation (invocations ?r) of
           Resolved v \<Rightarrow> outcome ?r = Returned v
         | Rejected e \<Rightarrow>
             (case isRetryableError e of
                Inr retryable \<Rightarrow> outcome ?r = Threw e \<and> (\<not> retryable \<or> invocations ?r = n)
              | Inl x \<Rightarrow> outcome ?r = Raised x)"
  proof (cases "exit_at ?r")
    case ReturnInTry
    with final show ?thesis by auto
  next
    case ThrowInCatch
    with final assms(1) show ?thesis by auto
  next
    case ThrowInClassifier
    with final show ?thesis by auto
  next
    case ThrowAfterLoop
    with budget show ?thesis by simp
  qed
  from pos budget earlier last show ?thesis
    by blast
qed


theorem withRetry_outcome_witness:
  "maxAttempts (destructure None) = Num (of_nat 3) \<and> (1::nat) \<le> 3
   \<and> invocations (withRetry (script [Rejected (Obj 1 (Some ''timeout'')),
                    Rejected (Obj 2 (Some ''execution reverted''))] (Resolved (0::nat))) None) = 2
   \<and> outcome (withRetry (script [Rejected (Obj 1 (Some ''timeout'')),
                    Rejected (Obj 2 (Some ''execution reverted''))] (Resolved (0::nat))) None)
       = Threw (Obj 2 (Some ''execution reverted''))"
proof -
  let ?op = "script [Rejected (Obj 1 (Some ''timeout'')),
                    Rejected (Obj 2 (Some ''execution reverted''))] (Resolved (0::nat))"
  have h1: "maxAttempts (destructure None) = Num (of_nat 3)"
    by (simp add: RETRY_CONFIG_def)
  have h2: "(1::nat) \<le> 3"
    by simp
  have k: "invocations (withRetry ?op None) = 2"
    by code_simp
  have op2: "?op 2 = Rejected (Obj 2 (Some ''execution reverted''))"
    by code_simp
  have cl: "isRetryableError (Obj 2 (Some ''execution reverted'')) = Inr False"
    by code_simp
  from withRetry_outcome [OF h1 h2, of ?op]
  have "outcome (withRetry ?op None) = Threw (Obj 2 (Some ''execution reverted''))"
    unfolding k op2 cl by simp
  with h1 h2 k show ?thesis
    by blast
qed

text \<open>
  C1 as stated fails: an operation that rejects with an object without a message makes
  \<open>withRetry\<close> fail with a TypeError that no invocation produced.
\<close>

theorem withRetry_classifier_failure_counterexample:
  "withRetry (script [] (Rejected (Obj 7 None) :: nat settled)) None
     = \<lparr>outcome = Raised TypeError, exit_at = ThrowInClassifier, invocations = 1, slept = [],
          events = [Invoked 1]\<rparr>
   \<and> outcome (withRetry (script [] (Rejected (Obj 7 None) :: nat settled)) None)
       \<noteq> Threw (Obj 7 None)"
  by code_simp

text \<open>
  C9, as the code has it. When \<^verbatim>\<open>maxAttempts >= 1\<close>, the operation is invoked at
  least once. When \<^verbatim>\<open>maxAttempts\<close> is an integer \<open>n \<ge> 1\<close>, \<open>withRetry\<close> is
  never left through the \<^verbatim>\<open>throw lastError\<close> after the loop. When \<^verbatim>\<open>maxAttempts <= 0\<close>, the operation is not invoked, nothing is
  slept, and \<open>withRetry\<close> is left through that statement, throwing the initial,
  undefined value of \<^verbatim>\<open>lastError\<close>.
\<close>

theorem withRetry_trailing_throw:
  "(js_le (Num 1) (maxAttempts (destructure arg)) \<longrightarrow>
      1 \<le> invocations (withRetry operation arg))
   \<and> (maxAttempts (destructure arg) = Num (of_nat n) \<and> 1 \<le> n \<longrightarrow>
        exit_at (withRetry operation arg) \<noteq> ThrowAfterLoop)
   \<and> (js_le (maxAttempts (destructure arg)) (Num 0) \<longrightarrow>
        withRetry operation arg
          = \<lparr>outcome = Threw Undefined, exit_at = ThrowAfterLoop, invocations = 0, slept = [],
             events = []\<rparr>)"
proof (intro conjI impI)
  assume "js_le (Num 1) (maxAttempts (destructure arg))"
  then show "1 \<le> invocations (withRetry operation arg)"
    by (rule withRetry_entered)
next
  assume "maxAttempts (destructure arg) = Num (of_nat n) \<and> 1 \<le> n"
  then show "exit_at (withRetry operation arg) \<noteq> ThrowAfterLoop"
    unfolding withRetry_start
    using loop_within_budget [of "destructure arg" n "start (destructure arg)" operation]
    by simp
next
  assume "js_le (maxAttempts (destructure arg)) (Num 0)"
  then have "\<not> js_le (Num (of_nat (attempt (start (destructure arg)))))
                 (maxAttempts (destructure arg))"
    by (auto simp: js_le_def split: option.splits)
  then show "withRetry operation arg
          = \<lparr>outcome = Threw Undefined, exit_at = ThrowAfterLoop, invocations = 0, slept = [],
             events = []\<rparr>"
    unfolding withRetry_start by (simp add: loop_exit finish_def)
qed

theorem withRetry_trailing_throw_witness:
  "js_le (Num 1) (maxAttempts (destructure None))
   \<and> maxAttempts (destructure None) = Num (of_nat 3) \<and> (1::nat) \<le> 3
   \<and> 1 \<le> invocations
            (withRetry (script [] (Rejected (Obj 1 (Some ''timeout'')) :: nat settled)) None)
   \<and> exit_at (withRetry (script [] (Rejected (Obj 1 (Some ''timeout'')) :: nat settled)) None)
        \<noteq> ThrowAfterLoop
   \<and> js_le (maxAttempts (destructure (Some \<lparr>maxAttempts = Num 0, initialDelay = Num 1000,
          maxDelay = Num 10000, backoffFactor = Num 2\<rparr>))) (Num 0)
   \<and> withRetry (script [] (Resolved (5::nat)))
        (Some \<lparr>maxAttempts = Num 0, initialDelay = Num 1000, maxDelay = Num 10000,
               backoffFactor = Num 2\<rparr>)
       = \<lparr>outcome = Threw Undefined, exit_at = ThrowAfterLoop, invocations = 0, slept = [],
          events = []\<rparr>"
proof -
  let ?p0 = "\<lparr>maxAttempts = Num 0, initialDelay = Num 1000, maxDelay = Num 10000,
               backoffFactor = Num 2\<rparr>"
  let ?ko = "script [] (Rejected (Obj 1 (Some ''timeout'')) :: nat settled)"
  have h0: "js_le (Num 1) (maxAttempts (destructure None))"
    and h1: "maxAttempts (destructure None) = Num (of_nat 3) \<and> (1::nat) \<le> 3"
    by (simp_all add: RETRY_CONFIG_def)
  have h2: "js_le (maxAttempts (destructure (Some ?p0))) (Num 0)"
    by simp
  from h0 h1 withRetry_trailing_throw [of None ?ko 3]
  have a: "1 \<le> invocations (withRetry ?ko None)
           \<and> exit_at (withRetry ?ko None) \<noteq> ThrowAfterLoop"
    by blast
  from h2 withRetry_trailing_throw [of "Some ?p0" "script [] (Resolved (5::nat))" 0]
  have b: "withRetry (script [] (Resolved (5::nat))) (Some ?p0)
       = \<lparr>outcome = Threw Undefined, exit_at = ThrowAfterLoop, invocations = 0, slept = [],
          events = []\<rparr>"
    by blast
  from h0 h1 h2 a b show ?thesis
    by blast
qed

text \<open>
  C9 as stated fails for a \<^verbatim>\<open>maxAttempts\<close> that is not an integer. The loop compares
  the counter with \<^verbatim>\<open>maxAttempts\<close> by \<^verbatim>\<open><=\<close> to go on and by \<^verbatim>\<open>===\<close> to give
  up, so under a \<^verbatim>\<open>maxAttempts\<close> of 2.5, which is at least 1, the second retryable
  failure is followed by a sleep and by the statement after the loop.
\<close>

theorem withRetry_fractional_maxAttempts_counterexample:
  "js_le (Num 1)
     (maxAttempts \<lparr>maxAttempts = Num (5 / 2), initialDelay = Num 1000, maxDelay = Num 10000,
                   backoffFactor = Num 2\<rparr>)
   \<and> withRetry (script [] (Rejected (Obj 7 (Some ''timeout'')) :: nat settled))
        (Some \<lparr>maxAttempts = Num (5 / 2), initialDelay = Num 1000, maxDelay = Num 10000,
               backoffFactor = Num 2\<rparr>)
       = \<lparr>outcome = Threw (Obj 7 (Some ''timeout'')), exit_at = ThrowAfterLoop,
          invocations = 2, slept = [Num 1000, Num 2000],
          events = [Invoked 1, Slept (Num 1000), Invoked 2, Slept (Num 2000)]\<rparr>"
  by code_simp

text \<open>
  C5. When the first invocation fails with an error that the classifier answers is not
  retryable (and the loop is entered at all: \<^verbatim>\<open>1 <= maxAttempts\<close>), \<open>withRetry\<close>
  fails with exactly that error, after one invocation and no sleep.
\<close>

theorem withRetry_non_retryable_first:
  assumes "js_le (Num 1) (maxAttempts (destructure arg))"
    and "operation 1 = Rejected e"
    and "isRetryableError e = Inr False"
  shows "withRetry operation arg
           = \<lparr>outcome = Threw e, exit_at = ThrowInCatch, invocations = 1, slept = [],
          events = [Invoked 1]\<rparr>"
proof -
  let ?p = "destructure arg"
  have "loop ?p operation (start ?p)
          = finish (Threw e) ThrowInCatch ((invoke (start ?p))\<lparr>lastError := e\<rparr>)"
    by (rule loop_throw [where b = False]) (use assms in simp_all)
  then show ?thesis
    by (simp add: withRetry_start finish_def)
qed

theorem withRetry_non_retryable_first_witness:
  "js_le (Num 1) (maxAttempts (destructure None))
   \<and> script [Rejected (Obj 4 (Some ''execution reverted''))] (Resolved (0::nat)) 1
       = Rejected (Obj 4 (Some ''execution reverted''))
   \<and> isRetryableError (Obj 4 (Some ''execution reverted'')) = Inr False
   \<and> withRetry (script [Rejected (Obj 4 (Some ''execution reverted''))] (Resolved (0::nat))) None
       = \<lparr>outcome = Threw (Obj 4 (Some ''execution reverted'')), exit_at = ThrowInCatch,
          invocations = 1, slept = [],
          events = [Invoked 1]\<rparr>"
proof -
  let ?e = "Obj 4 (Some ''execution reverted'')"
  let ?op = "script [Rejected ?e] (Resolved (0::nat))"
  have h1: "js_le (Num 1) (maxAttempts (destructure None))"
    by (simp add: RETRY_CONFIG_def)
  have h2: "?op 1 = Rejected ?e"
    by (simp add: script_def)
  have h3: "isRetryableError ?e = Inr False"
    by code_simp
  from h1 h2 h3 withRetry_non_retryable_first [where operation = ?op, OF h1 h2 h3] show ?thesis
    by blast
qed

text \<open>
  C6. An operation that succeeds on its first invocation makes \<open>withRetry\<close> return
  that result after one invocation and no sleep. An operation that fails twice with
  retryable errors and succeeds on the third invocation, under \<^verbatim>\<open>3 <= maxAttempts\<close>,
  makes it return the third result after exactly two sleeps. In general a returned
  result is that of the last invocation made, every invocation before it failed with a
  retryable error, and the sleeps are one fewer than the invocations: and the
  events alternate, invocation, sleep, invocation, and end with the successful
  invocation: nothing is slept after the success.
\<close>

theorem withRetry_first_success:
  "(js_le (Num 1) (maxAttempts (destructure arg)) \<and> operation 1 = Resolved v \<longrightarrow>
      withRetry operation arg
        = \<lparr>outcome = Returned v, exit_at = ReturnInTry, invocations = 1, slept = [],
          events = [Invoked 1]\<rparr>)
   \<and> (js_le (Num 3) (maxAttempts (destructure arg))
       \<and> operation 1 = Rejected e1 \<and> isRetryableError e1 = Inr True
       \<and> operation 2 = Rejected e2 \<and> isRetryableError e2 = Inr True
       \<and> operation 3 = Resolved v \<longrightarrow>
      withRetry operation arg
        = \<lparr>outcome = Returned v, exit_at = ReturnInTry, invocations = 3,
           slept = [initialDelay (destructure arg),
                    Math_min (js_mul (initialDelay (destructure arg)) (backoffFactor (destructure arg))) (maxDelay (destructure arg))],
           events = [Invoked 1, Slept (initialDelay (destructure arg)), Invoked 2,
                     Slept (Math_min (js_mul (initialDelay (destructure arg)) (backoffFactor (destructure arg))) (maxDelay (destructure arg))),
                     Invoked 3]\<rparr>)
   \<and> (exit_at (withRetry operation arg) = ReturnInTry \<longrightarrow>
        (\<exists>w. operation (invocations (withRetry operation arg)) = Resolved w
              \<and> outcome (withRetry operation arg) = Returned w)
        \<and> (\<forall>j. 1 \<le> j \<and> j < invocations (withRetry operation arg) \<longrightarrow>
               (\<exists>e. operation j = Rejected e \<and> isRetryableError e = Inr True))
        \<and> Suc (length (slept (withRetry operation arg))) = invocations (withRetry operation arg)
        \<and> events (withRetry operation arg) = timeline 1 (slept (withRetry operation arg)))"
proof (intro conjI impI)
  let ?p = "destructure arg"
  assume a: "js_le (Num 1) (maxAttempts ?p) \<and> operation 1 = Resolved v"
  then have "loop ?p operation (start ?p)
          = finish (Returned v) ReturnInTry (invoke (start ?p))"
    by (intro loop_resolved) simp_all
  then show "withRetry operation arg
        = \<lparr>outcome = Returned v, exit_at = ReturnInTry, invocations = 1, slept = [],
          events = [Invoked 1]\<rparr>"
    by (simp add: withRetry_start finish_def)
next
  let ?p = "destructure arg"
  let ?s1 = "retry_state ?p e1 (start ?p)"
  let ?s2 = "retry_state ?p e2 ?s1"
  assume a: "js_le (Num 3) (maxAttempts ?p)
       \<and> operation 1 = Rejected e1 \<and> isRetryableError e1 = Inr True
       \<and> operation 2 = Rejected e2 \<and> isRetryableError e2 = Inr True
       \<and> operation 3 = Resolved v"
  then obtain m where m: "maxAttempts ?p = Num m" and m3: "3 \<le> m"
    by (cases "maxAttempts ?p") (simp_all add: js_le_def)
  have "loop ?p operation (start ?p) = loop ?p operation ?s1"
    by (rule loop_retry) (use a m m3 in simp_all)
  also have "\<dots> = loop ?p operation ?s2"
    by (rule loop_retry) (use a m m3 in \<open>simp_all add: numeral_2_eq_2\<close>)
  also have "\<dots> = finish (Returned v) ReturnInTry (invoke ?s2)"
    by (rule loop_resolved) (use a m m3 in \<open>simp_all add: numeral_3_eq_3\<close>)
  finally show "withRetry operation arg
        = \<lparr>outcome = Returned v, exit_at = ReturnInTry, invocations = 3,
           slept = [initialDelay ?p,
                    Math_min (js_mul (initialDelay ?p) (backoffFactor ?p)) (maxDelay ?p)],
           events = [Invoked 1, Slept (initialDelay ?p), Invoked 2,
                     Slept (Math_min (js_mul (initialDelay ?p) (backoffFactor ?p)) (maxDelay ?p)),
                     Invoked 3]\<rparr>"
    by (simp add: withRetry_start finish_def)
next
  assume x: "exit_at (withRetry operation arg) = ReturnInTry"
  from loop_final_attempt [where s = "start (destructure arg)" and p = "destructure arg"
      and operation = operation] x
  show "\<exists>w. operation (invocations (withRetry operation arg)) = Resolved w
              \<and> outcome (withRetry operation arg) = Returned w"
    by (simp add: withRetry_start)
  show "\<forall>j. 1 \<le> j \<and> j < invocations (withRetry operation arg) \<longrightarrow>
               (\<exists>e. operation j = Rejected e \<and> isRetryableError e = Inr True)"
    using withRetry_earlier_attempts by blast
  show "Suc (length (slept (withRetry operation arg))) = invocations (withRetry operation arg)"
    using withRetry_invocations [of operation arg] x by simp
  show "events (withRetry operation arg) = timeline 1 (slept (withRetry operation arg))"
    using withRetry_events [of operation arg] x by simp
qed


theorem withRetry_first_success_witness:
  "js_le (Num 1) (maxAttempts (destructure None))
   \<and> script [] (Resolved (42::nat)) 1 = Resolved 42
   \<and> withRetry (script [] (Resolved (42::nat))) None
       = \<lparr>outcome = Returned 42, exit_at = ReturnInTry, invocations = 1, slept = [],
          events = [Invoked 1]\<rparr>
   \<and> js_le (Num 3) (maxAttempts (destructure None))
   \<and> isRetryableError (Obj 1 (Some ''timeout'')) = Inr True
   \<and> isRetryableError (Obj 2 (Some ''Network Error'')) = Inr True
   \<and> withRetry (script [Rejected (Obj 1 (Some ''timeout'')),
                         Rejected (Obj 2 (Some ''Network Error''))] (Resolved (42::nat))) None
       = \<lparr>outcome = Returned 42, exit_at = ReturnInTry, invocations = 3,
          slept = [Num 1000, Num 2000],
          events = [Invoked 1, Slept (Num 1000), Invoked 2, Slept (Num 2000), Invoked 3]\<rparr>
   \<and> Suc (length (slept (withRetry (script [Rejected (Obj 1 (Some ''timeout'')),
                         Rejected (Obj 2 (Some ''Network Error''))] (Resolved (42::nat))) None)))
       = invocations (withRetry (script [Rejected (Obj 1 (Some ''timeout'')),
                         Rejected (Obj 2 (Some ''Network Error''))] (Resolved (42::nat))) None)"
proof -
  let ?e1 = "Obj 1 (Some ''timeout'')"
  let ?e2 = "Obj 2 (Some ''Network Error'')"
  let ?a = "script [] (Resolved (42::nat))"
  let ?b = "script [Rejected ?e1, Rejected ?e2] (Resolved (42::nat))"
  have h1: "js_le (Num 1) (maxAttempts (destructure None))"
    and h3: "js_le (Num 3) (maxAttempts (destructure None))"
    by (simp_all add: RETRY_CONFIG_def)
  have a1: "?a 1 = Resolved 42"
    by (simp add: script_def)
  have b1: "?b 1 = Rejected ?e1" and b2: "?b 2 = Rejected ?e2" and b3: "?b 3 = Resolved 42"
    by (simp_all add: script_def)
  have r1: "isRetryableError ?e1 = Inr True" and r2: "isRetryableError ?e2 = Inr True"
    by code_simp+
  have ra: "withRetry ?a None
       = \<lparr>outcome = Returned 42, exit_at = ReturnInTry, invocations = 1, slept = [],
          events = [Invoked 1]\<rparr>"
    using withRetry_first_success [where operation = ?a and arg = None and v = 42] h1 a1
    by blast
  have "withRetry ?b None
       = \<lparr>outcome = Returned 42, exit_at = ReturnInTry, invocations = 3,
          slept = [initialDelay (destructure None),
                    Math_min (js_mul (initialDelay (destructure None)) (backoffFactor (destructure None))) (maxDelay (destructure None))],
           events = [Invoked 1, Slept (initialDelay (destructure None)), Invoked 2,
                     Slept (Math_min (js_mul (initialDelay (destructure None)) (backoffFactor (destructure None))) (maxDelay (destructure None))),
                     Invoked 3]\<rparr>"
    using withRetry_first_success [where operation = ?b and arg = None and v = 42
        and ?e1.0 = ?e1 and ?e2.0 = ?e2] h3 b1 b2 b3 r1 r2
    by blast
  then have rb: "withRetry ?b None
       = \<lparr>outcome = Returned 42, exit_at = ReturnInTry, invocations = 3,
          slept = [Num 1000, Num 2000],
          events = [Invoked 1, Slept (Num 1000), Invoked 2, Slept (Num 2000), Invoked 3]\<rparr>"
    by (simp add: RETRY_CONFIG_def js_mul_def Math_min_def)
  then have "exit_at (withRetry ?b None) = ReturnInTry"
    by simp
  then have rc: "Suc (length (slept (withRetry ?b None))) = invocations (withRetry ?b None)"
    using withRetry_first_success [where operation = ?b and arg = None]
    by blast
  from h1 a1 ra h3 r1 r2 rb rc show ?thesis
    by blast
qed

text \<open>
  C2. Under the policy \<^verbatim>\<open>{maxAttempts: 3, initialDelay: 1000, maxDelay: 10000,
  backoffFactor: 2}\<close>, an operation that fails with a retryable error on every invocation
  is invoked exactly 3 times, \<^verbatim>\<open>sleep\<close> is called exactly twice, with 1000 and then
  2000, and \<open>withRetry\<close> fails with the error of the third invocation.
\<close>

theorem withRetry_exhausts_budget:
  assumes "\<forall>k. \<exists>e. operation k = Rejected e \<and> isRetryableError e = Inr True"
  shows "\<exists>e. operation 3 = Rejected e
           \<and> withRetry operation
                (Some \<lparr>maxAttempts = Num 3, initialDelay = Num 1000, maxDelay = Num 10000,
                       backoffFactor = Num 2\<rparr>)
               = \<lparr>outcome = Threw e, exit_at = ThrowInCatch, invocations = 3,
                  slept = [Num 1000, Num 2000],
          events = [Invoked 1, Slept (Num 1000), Invoked 2, Slept (Num 2000), Invoked 3]\<rparr>"
proof -
  let ?p = "\<lparr>maxAttempts = Num 3, initialDelay = Num 1000, maxDelay = Num 10000,
              backoffFactor = Num 2\<rparr>"
  from assms obtain e1 e2 e3
    where e1: "operation 1 = Rejected e1" "isRetryableError e1 = Inr True"
      and e2: "operation 2 = Rejected e2" "isRetryableError e2 = Inr True"
      and e3: "operation 3 = Rejected e3" "isRetryableError e3 = Inr True"
    by metis
  let ?s1 = "retry_state ?p e1 (start ?p)"
  let ?s2 = "retry_state ?p e2 ?s1"
  have "loop ?p operation (start ?p) = loop ?p operation ?s1"
    by (rule loop_retry) (use e1 in simp_all)
  also have "\<dots> = loop ?p operation ?s2"
    by (rule loop_retry) (use e2 in \<open>simp_all add: numeral_2_eq_2\<close>)
  also have "\<dots> = finish (Threw e3) ThrowInCatch ((invoke ?s2)\<lparr>lastError := e3\<rparr>)"
    by (rule loop_throw [where b = True]) (use e3 in \<open>simp_all add: numeral_3_eq_3\<close>)
  finally have "withRetry operation (Some ?p)
               = \<lparr>outcome = Threw e3, exit_at = ThrowInCatch, invocations = 3,
                  slept = [Num 1000, Num 2000],
          events = [Invoked 1, Slept (Num 1000), Invoked 2, Slept (Num 2000), Invoked 3]\<rparr>"
    by (simp add: withRetry_start finish_def js_mul_def Math_min_def)
  with e3(1) show ?thesis
    by blast
qed

lemma script_cases:
  "script [a, b, c] d k = (if k = 1 then a else if k = 2 then b else if k = 3 then c else d)"
  by (auto simp: script_def nth_Cons' numeral_2_eq_2 numeral_3_eq_3)

theorem withRetry_exhausts_budget_witness:
  "(\<forall>k. \<exists>e. script [Rejected (Obj 1 (Some ''timeout'')),
                   Rejected (Obj 2 (Some ''Network Error'')),
                   Rejected (Obj 3 (Some ''nonce too low''))]
             (Rejected (Obj 4 (Some ''timeout'')) :: nat settled) k = Rejected e
          \<and> isRetryableError e = Inr True)
   \<and> withRetry (script [Rejected (Obj 1 (Some ''timeout'')),
                   Rejected (Obj 2 (Some ''Network Error'')),
                   Rejected (Obj 3 (Some ''nonce too low''))]
             (Rejected (Obj 4 (Some ''timeout'')) :: nat settled))
        (Some \<lparr>maxAttempts = Num 3, initialDelay = Num 1000, maxDelay = Num 10000,
               backoffFactor = Num 2\<rparr>)
       = \<lparr>outcome = Threw (Obj 3 (Some ''nonce too low'')), exit_at = ThrowInCatch,
          invocations = 3, slept = [Num 1000, Num 2000],
          events = [Invoked 1, Slept (Num 1000), Invoked 2, Slept (Num 2000), Invoked 3]\<rparr>"
proof -
  let ?op = "script [Rejected (Obj 1 (Some ''timeout'')),
                   Rejected (Obj 2 (Some ''Network Error'')),
                   Rejected (Obj 3 (Some ''nonce too low''))]
             (Rejected (Obj 4 (Some ''timeout'')) :: nat settled)"
  have r: "isRetryableError (Obj 1 (Some ''timeout'')) = Inr True"
    "isRetryableError (Obj 2 (Some ''Network Error'')) = Inr True"
    "isRetryableError (Obj 3 (Some ''nonce too low'')) = Inr True"
    "isRetryableError (Obj 4 (Some ''timeout'')) = Inr True"
    by code_simp+
  have h: "\<forall>k. \<exists>e. ?op k = Rejected e \<and> isRetryableError e = Inr True"
    unfolding script_cases using r by simp
  have op3: "?op 3 = Rejected (Obj 3 (Some ''nonce too low''))"
    unfolding script_cases by simp
  from withRetry_exhausts_budget [OF h] op3 h show ?thesis
    by auto
qed


section \<open>The sequence of delays\<close>

lemma backoff_delays_bounds:
  assumes "backoffFactor p = Num f" and "1 < f" and "maxDelay p = Num M"
    and "0 \<le> d" and "d \<le> M"
  shows "\<forall>x \<in> set (backoff_delays p (Num d) k). \<exists>y. x = Num y \<and> d \<le> y \<and> y \<le> M"
  using assms(4,5)
proof (induction k arbitrary: d)
  case 0
  show ?case by simp
next
  case (Suc k)
  let ?d' = "min (d * f) M"
  have next_delay: "Math_min (js_mul (Num d) (backoffFactor p)) (maxDelay p) = Num ?d'"
    by (simp add: assms(1,3) js_mul_def Math_min_def)
  have "d * 1 \<le> d * f"
    using Suc.prems(1) assms(2) by (intro mult_left_mono) simp_all
  then have grow: "d \<le> ?d'"
    using Suc.prems(2) by simp
  then have "0 \<le> ?d'" and "?d' \<le> M"
    using Suc.prems(1) by simp_all
  from Suc.IH [OF this]
  have "\<forall>x \<in> set (backoff_delays p (Num ?d') k). \<exists>y. x = Num y \<and> d \<le> y \<and> y \<le> M"
    using grow by fastforce
  then show ?case
    using Suc.prems(2) by (simp add: next_delay)
qed

lemma backoff_delays_sorted:
  assumes "backoffFactor p = Num f" and "1 < f" and "maxDelay p = Num M"
    and "0 \<le> d" and "d \<le> M"
  shows "sorted_wrt js_le (backoff_delays p (Num d) k)"
  using assms(4,5)
proof (induction k arbitrary: d)
  case 0
  show ?case by simp
next
  case (Suc k)
  let ?d' = "min (d * f) M"
  have next_delay: "Math_min (js_mul (Num d) (backoffFactor p)) (maxDelay p) = Num ?d'"
    by (simp add: assms(1,3) js_mul_def Math_min_def)
  have "d * 1 \<le> d * f"
    using Suc.prems(1) assms(2) by (intro mult_left_mono) simp_all
  then have grow: "d \<le> ?d'"
    using Suc.prems(2) by simp
  then have nonneg: "0 \<le> ?d'" and capped: "?d' \<le> M"
    using Suc.prems(1) by simp_all
  have "\<forall>x \<in> set (backoff_delays p (Num ?d') k). \<exists>y. x = Num y \<and> ?d' \<le> y \<and> y \<le> M"
    by (rule backoff_delays_bounds [OF assms(1-3) nonneg capped])
  then have "\<forall>x \<in> set (backoff_delays p (Num ?d') k). js_le (Num d) x"
    using grow by fastforce
  moreover have "sorted_wrt js_le (backoff_delays p (Num ?d') k)"
    by (rule Suc.IH [OF nonneg capped])
  ultimately show ?case
    by (simp add: next_delay)
qed

lemma backoff_delays_nth:
  "Suc i < k \<Longrightarrow>
   backoff_delays p d k ! Suc i
     = Math_min (js_mul (backoff_delays p d k ! i) (backoffFactor p)) (maxDelay p)"
proof (induction k arbitrary: d i)
  case 0
  then show ?case by simp
next
  case (Suc k)
  show ?case
  proof (cases i)
    case 0
    with Suc.prems obtain k' where "k = Suc k'"
      by (cases k) simp_all
    with 0 show ?thesis by simp
  next
    case (Suc i')
    with Suc.prems have "Suc i' < k" by simp
    from Suc.IH [OF this] Suc show ?thesis by simp
  qed
qed

lemma backoff_delays_hd: "0 < k \<Longrightarrow> hd (backoff_delays p d k) = d"
  by (cases k) simp_all

text \<open>
  C7, as the code has it. For every policy with \<^verbatim>\<open>backoffFactor > 1\<close> and
  \<^verbatim>\<open>0 <= initialDelay <= maxDelay\<close>, the delays handed to \<^verbatim>\<open>sleep\<close> in the
  course of one call are non-decreasing, and none exceeds \<^verbatim>\<open>maxDelay\<close>.
\<close>

theorem withRetry_backoff_monotone:
  assumes "backoffFactor (destructure arg) = Num f" and "1 < f"
    and "initialDelay (destructure arg) = Num d" and "maxDelay (destructure arg) = Num M"
    and "0 \<le> d" and "d \<le> M"
  shows "sorted_wrt js_le (slept (withRetry operation arg))
         \<and> (\<forall>x \<in> set (slept (withRetry operation arg)). js_le x (maxDelay (destructure arg)))"
proof -
  obtain k where k: "slept (withRetry operation arg) = backoff_delays (destructure arg) (Num d) k"
    using withRetry_slept_ex [of operation arg] assms(3) by auto
  have "sorted_wrt js_le (backoff_delays (destructure arg) (Num d) k)"
    by (rule backoff_delays_sorted [OF assms(1,2,4,5,6)])
  moreover have "\<forall>x \<in> set (backoff_delays (destructure arg) (Num d) k).
                   \<exists>y. x = Num y \<and> d \<le> y \<and> y \<le> M"
    by (rule backoff_delays_bounds [OF assms(1,2,4,5,6)])
  then have "\<forall>x \<in> set (backoff_delays (destructure arg) (Num d) k).
               js_le x (maxDelay (destructure arg))"
    using assms(4) by fastforce
  ultimately show ?thesis
    unfolding k by blast
qed

theorem withRetry_backoff_monotone_witness:
  "backoffFactor (destructure (Some \<lparr>maxAttempts = Num 5, initialDelay = Num 4000,
       maxDelay = Num 10000, backoffFactor = Num (3 / 2)\<rparr>)) = Num (3 / 2)
   \<and> (1::rat) < 3 / 2 \<and> (0::rat) \<le> 4000 \<and> (4000::rat) \<le> 10000
   \<and> slept (withRetry (script [] (Rejected (Obj 1 (Some ''timeout'')) :: nat settled))
        (Some \<lparr>maxAttempts = Num 5, initialDelay = Num 4000, maxDelay = Num 10000,
               backoffFactor = Num (3 / 2)\<rparr>))
       = [Num 4000, Num 6000, Num 9000, Num 10000]
   \<and> sorted_wrt js_le (slept (withRetry (script [] (Rejected (Obj 1 (Some ''timeout'')) :: nat settled))
        (Some \<lparr>maxAttempts = Num 5, initialDelay = Num 4000, maxDelay = Num 10000,
               backoffFactor = Num (3 / 2)\<rparr>)))
   \<and> js_le (slept (withRetry (script [] (Rejected (Obj 1 (Some ''timeout'')) :: nat settled))
        (Some \<lparr>maxAttempts = Num 5, initialDelay = Num 4000, maxDelay = Num 10000,
               backoffFactor = Num (3 / 2)\<rparr>)) ! 3) (Num 10000)"
proof -
  let ?p = "\<lparr>maxAttempts = Num 5, initialDelay = Num 4000, maxDelay = Num 10000,
               backoffFactor = Num (3 / 2)\<rparr>"
  let ?op = "script [] (Rejected (Obj 1 (Some ''timeout'')) :: nat settled)"
  have h1: "backoffFactor (destructure (Some ?p)) = Num (3 / 2)"
    and h3: "initialDelay (destructure (Some ?p)) = Num 4000"
    and h4: "maxDelay (destructure (Some ?p)) = Num 10000"
    by simp_all
  have h2: "(1::rat) < 3 / 2" and h5: "(0::rat) \<le> 4000" and h6: "(4000::rat) \<le> 10000"
    by simp_all
  have v: "slept (withRetry ?op (Some ?p)) = [Num 4000, Num 6000, Num 9000, Num 10000]"
    by code_simp
  from withRetry_backoff_monotone [OF h1 h2 h3 h4 h5 h6, of ?op]
  have s: "sorted_wrt js_le (slept (withRetry ?op (Some ?p)))"
    and b: "\<forall>x \<in> set (slept (withRetry ?op (Some ?p))). js_le x (Num 10000)"
    by simp_all
  have "slept (withRetry ?op (Some ?p)) ! 3 \<in> set (slept (withRetry ?op (Some ?p)))"
    unfolding v by simp
  with b have "js_le (slept (withRetry ?op (Some ?p)) ! 3) (Num 10000)"
    by blast
  with h1 h2 h5 h6 v s show ?thesis
    by blast
qed

text \<open>
  C7 as stated fails for a negative \<^verbatim>\<open>initialDelay\<close>, which satisfies
  \<^verbatim>\<open>initialDelay <= maxDelay\<close>: multiplying by a factor above 1 then makes the delay
  smaller at each retry.
\<close>

theorem withRetry_negative_delay_counterexample:
  "js_le (initialDelay \<lparr>maxAttempts = Num 3, initialDelay = Num (- 1000), maxDelay = Num 10000,
                        backoffFactor = Num 2\<rparr>)
         (maxDelay \<lparr>maxAttempts = Num 3, initialDelay = Num (- 1000), maxDelay = Num 10000,
                        backoffFactor = Num 2\<rparr>)
   \<and> slept (withRetry (script [] (Rejected (Obj 1 (Some ''timeout'')) :: nat settled))
        (Some \<lparr>maxAttempts = Num 3, initialDelay = Num (- 1000), maxDelay = Num 10000,
               backoffFactor = Num 2\<rparr>))
       = [Num (- 1000), Num (- 2000)]
   \<and> \<not> js_le (Num (- 1000)) (Num (- 2000))
   \<and> \<not> sorted_wrt js_le (slept (withRetry (script [] (Rejected (Obj 1 (Some ''timeout'')) :: nat settled))
        (Some \<lparr>maxAttempts = Num 3, initialDelay = Num (- 1000), maxDelay = Num 10000,
               backoffFactor = Num 2\<rparr>)))"
  by code_simp


section \<open>The first wait and the default policy\<close>

text \<open>
  C10. The first argument of \<^verbatim>\<open>sleep\<close> is \<^verbatim>\<open>initialDelay\<close> itself; the cap
  enters only where the next delay is computed from the previous one. So under a policy
  with \<^verbatim>\<open>initialDelay > maxDelay\<close> the first wait, when there is one, exceeds
  \<^verbatim>\<open>maxDelay\<close>.
\<close>

theorem withRetry_first_wait_uncapped:
  "(slept (withRetry operation arg) \<noteq> [] \<longrightarrow>
      hd (slept (withRetry operation arg)) = initialDelay (destructure arg))
   \<and> (\<forall>i. Suc i < length (slept (withRetry operation arg)) \<longrightarrow>
          slept (withRetry operation arg) ! Suc i
            = Math_min (js_mul (slept (withRetry operation arg) ! i)
                          (backoffFactor (destructure arg)))
                (maxDelay (destructure arg)))
   \<and> (slept (withRetry operation arg) \<noteq> []
       \<and> initialDelay (destructure arg) = Num d \<and> maxDelay (destructure arg) = Num M
       \<and> M < d \<longrightarrow>
        hd (slept (withRetry operation arg)) = Num d
        \<and> \<not> js_le (hd (slept (withRetry operation arg))) (maxDelay (destructure arg)))"
proof -
  let ?p = "destructure arg"
  obtain k where k: "slept (withRetry operation arg) = backoff_delays ?p (initialDelay ?p) k"
    using withRetry_slept_ex by blast
  have first: "hd (slept (withRetry operation arg)) = initialDelay ?p"
    if "slept (withRetry operation arg) \<noteq> []"
  proof -
    from that k have "0 < k"
      by (cases k) simp_all
    then show ?thesis
      unfolding k by (rule backoff_delays_hd)
  qed
  have later: "slept (withRetry operation arg) ! Suc i
            = Math_min (js_mul (slept (withRetry operation arg) ! i) (backoffFactor ?p))
                (maxDelay ?p)"
    if "Suc i < length (slept (withRetry operation arg))" for i
  proof -
    from that have "Suc i < k"
      unfolding k by simp
    then show ?thesis
      unfolding k by (rule backoff_delays_nth)
  qed
  from first later show ?thesis
    by simp
qed

theorem withRetry_first_wait_uncapped_witness:
  "slept (withRetry (script [] (Rejected (Obj 1 (Some ''timeout'')) :: nat settled))
        (Some \<lparr>maxAttempts = Num 3, initialDelay = Num 20000, maxDelay = Num 10000,
               backoffFactor = Num 2\<rparr>))
       = [Num 20000, Num 10000]
   \<and> (10000::rat) < 20000
   \<and> hd (slept (withRetry (script [] (Rejected (Obj 1 (Some ''timeout'')) :: nat settled))
        (Some \<lparr>maxAttempts = Num 3, initialDelay = Num 20000, maxDelay = Num 10000,
               backoffFactor = Num 2\<rparr>))) = Num 20000
   \<and> \<not> js_le (hd (slept (withRetry (script [] (Rejected (Obj 1 (Some ''timeout'')) :: nat settled))
        (Some \<lparr>maxAttempts = Num 3, initialDelay = Num 20000, maxDelay = Num 10000,
               backoffFactor = Num 2\<rparr>)))) (Num 10000)"
proof -
  let ?p = "\<lparr>maxAttempts = Num 3, initialDelay = Num 20000, maxDelay = Num 10000,
               backoffFactor = Num 2\<rparr>"
  let ?op = "script [] (Rejected (Obj 1 (Some ''timeout'')) :: nat settled)"
  have v: "slept (withRetry ?op (Some ?p)) = [Num 20000, Num 10000]"
    by code_simp
  then have h1: "slept (withRetry ?op (Some ?p)) \<noteq> []"
    by simp
  have h2: "initialDelay (destructure (Some ?p)) = Num 20000"
    and h3: "maxDelay (destructure (Some ?p)) = Num 10000"
    by simp_all
  have h4: "(10000::rat) < 20000"
    by simp
  from h1 h2 h3 h4
    withRetry_first_wait_uncapped [where operation = ?op and arg = "Some ?p"
      and d = 20000 and M = 10000]
  have "hd (slept (withRetry ?op (Some ?p))) = Num 20000
        \<and> \<not> js_le (hd (slept (withRetry ?op (Some ?p)))) (maxDelay (destructure (Some ?p)))"
    by blast
  with v h4 show ?thesis
    by simp
qed

text \<open>
  C8, as the code has it. Defaulting is by whole object: \<open>RETRY_CONFIG\<close>, that is
  \<open>(3, 1000, 10000, 2)\<close>, is used when no policy object is passed. An object that is
  passed is used as it is, and a field it lacks stays \<^verbatim>\<open>undefined\<close>: without
  \<^verbatim>\<open>maxAttempts\<close> the operation is never invoked and \<^verbatim>\<open>undefined\<close> is thrown;
  without \<^verbatim>\<open>initialDelay\<close> the first sleep receives \<^verbatim>\<open>undefined\<close>; without
  \<^verbatim>\<open>maxDelay\<close> or \<^verbatim>\<open>backoffFactor\<close> every later sleep receives \<^verbatim>\<open>NaN\<close>.
\<close>

theorem withRetry_whole_object_default:
  "withRetry operation None
     = withRetry operation
         (Some \<lparr>maxAttempts = Num 3, initialDelay = Num 1000, maxDelay = Num 10000,
                backoffFactor = Num 2\<rparr>)
   \<and> (maxAttempts p = Undefined \<longrightarrow>
        withRetry operation (Some p)
          = \<lparr>outcome = Threw Undefined, exit_at = ThrowAfterLoop, invocations = 0, slept = [],
          events = []\<rparr>)
   \<and> (initialDelay p = Undefined \<and> slept (withRetry operation (Some p)) \<noteq> [] \<longrightarrow>
        hd (slept (withRetry operation (Some p))) = Undefined)
   \<and> (maxDelay p = Undefined \<or> backoffFactor p = Undefined \<longrightarrow>
        (\<forall>i. Suc i < length (slept (withRetry operation (Some p))) \<longrightarrow>
           slept (withRetry operation (Some p)) ! Suc i = NaN))"
proof (intro conjI impI allI)
  show "withRetry operation None
     = withRetry operation
         (Some \<lparr>maxAttempts = Num 3, initialDelay = Num 1000, maxDelay = Num 10000,
                backoffFactor = Num 2\<rparr>)"
    by (simp add: withRetry_def RETRY_CONFIG_def)
next
  assume "maxAttempts p = Undefined"
  then have "\<not> js_le (Num (of_nat (attempt (start p)))) (maxAttempts p)"
    by (simp add: js_le_def)
  then show "withRetry operation (Some p)
          = \<lparr>outcome = Threw Undefined, exit_at = ThrowAfterLoop, invocations = 0, slept = [],
          events = []\<rparr>"
    by (simp add: withRetry_start loop_exit finish_def)
next
  obtain k where k: "slept (withRetry operation (Some p)) = backoff_delays p (initialDelay p) k"
    using withRetry_slept_ex [of operation "Some p"] by auto
  assume a: "initialDelay p = Undefined \<and> slept (withRetry operation (Some p)) \<noteq> []"
  with k have "0 < k"
    by (cases k) simp_all
  then have "hd (backoff_delays p (initialDelay p) k) = initialDelay p"
    by (rule backoff_delays_hd)
  with a show "hd (slept (withRetry operation (Some p))) = Undefined"
    unfolding k by simp
next
  fix i
  obtain k where k: "slept (withRetry operation (Some p)) = backoff_delays p (initialDelay p) k"
    using withRetry_slept_ex [of operation "Some p"] by auto
  assume missing: "maxDelay p = Undefined \<or> backoffFactor p = Undefined"
    and "Suc i < length (slept (withRetry operation (Some p)))"
  then have "Suc i < k"
    unfolding k by simp
  then have "backoff_delays p (initialDelay p) k ! Suc i
     = Math_min (js_mul (backoff_delays p (initialDelay p) k ! i) (backoffFactor p)) (maxDelay p)"
    by (rule backoff_delays_nth)
  also have "\<dots> = NaN"
    using missing by (auto simp: Math_min_def js_mul_def split: option.splits)
  finally show "slept (withRetry operation (Some p)) ! Suc i = NaN"
    unfolding k .
qed

theorem withRetry_whole_object_default_witness:
  "maxAttempts \<lparr>maxAttempts = Undefined, initialDelay = Num 500, maxDelay = Num 10000,
                backoffFactor = Num 2\<rparr> = Undefined
   \<and> withRetry (script [] (Resolved (42::nat)))
        (Some \<lparr>maxAttempts = Undefined, initialDelay = Num 500, maxDelay = Num 10000,
               backoffFactor = Num 2\<rparr>)
       = \<lparr>outcome = Threw Undefined, exit_at = ThrowAfterLoop, invocations = 0, slept = [],
          events = []\<rparr>
   \<and> slept (withRetry (script [] (Rejected (Obj 1 (Some ''timeout'')) :: nat settled))
        (Some \<lparr>maxAttempts = Num 4, initialDelay = Undefined, maxDelay = Undefined,
               backoffFactor = Num 2\<rparr>))
       = [Undefined, NaN, NaN]
   \<and> hd (slept (withRetry (script [] (Rejected (Obj 1 (Some ''timeout'')) :: nat settled))
        (Some \<lparr>maxAttempts = Num 4, initialDelay = Undefined, maxDelay = Undefined,
               backoffFactor = Num 2\<rparr>))) = Undefined
   \<and> slept (withRetry (script [] (Rejected (Obj 1 (Some ''timeout'')) :: nat settled))
        (Some \<lparr>maxAttempts = Num 4, initialDelay = Undefined, maxDelay = Undefined,
               backoffFactor = Num 2\<rparr>)) ! Suc 0 = NaN"
proof -
  let ?p1 = "\<lparr>maxAttempts = Undefined, initialDelay = Num 500, maxDelay = Num 10000,
               backoffFactor = Num 2\<rparr>"
  let ?p2 = "\<lparr>maxAttempts = Num 4, initialDelay = Undefined, maxDelay = Undefined,
               backoffFactor = Num 2\<rparr>"
  let ?ok = "script [] (Resolved (42::nat))"
  let ?ko = "script [] (Rejected (Obj 1 (Some ''timeout'')) :: nat settled)"
  have h1: "maxAttempts ?p1 = Undefined"
    by simp
  from h1 withRetry_whole_object_default [where operation = ?ok and p = ?p1]
  have a: "withRetry ?ok (Some ?p1)
       = \<lparr>outcome = Threw Undefined, exit_at = ThrowAfterLoop, invocations = 0, slept = [],
          events = []\<rparr>"
    by blast
  have v: "slept (withRetry ?ko (Some ?p2)) = [Undefined, NaN, NaN]"
    by code_simp
  then have h2: "initialDelay ?p2 = Undefined \<and> slept (withRetry ?ko (Some ?p2)) \<noteq> []"
    and h3: "maxDelay ?p2 = Undefined \<or> backoffFactor ?p2 = Undefined"
    and h4: "Suc 0 < length (slept (withRetry ?ko (Some ?p2)))"
    by simp_all
  from h2 withRetry_whole_object_default [where operation = ?ko and p = ?p2]
  have b: "hd (slept (withRetry ?ko (Some ?p2))) = Undefined"
    by blast
  from h3 h4 withRetry_whole_object_default [where operation = ?ko and p = ?p2]
  have c: "slept (withRetry ?ko (Some ?p2)) ! Suc 0 = NaN"
    by blast
  from h1 a v b c show ?thesis
    by blast
qed

text \<open>
  C8 as stated fails: a run under a policy object that lacks a field differs from the
  run under the same object with the default filled in for that field.
\<close>

theorem withRetry_per_field_default_counterexample:
  "per_field_defaults \<lparr>maxAttempts = Undefined, initialDelay = Num 500, maxDelay = Num 10000,
                        backoffFactor = Num 2\<rparr>
     = \<lparr>maxAttempts = Num 3, initialDelay = Num 500, maxDelay = Num 10000,
        backoffFactor = Num 2\<rparr>
   \<and> withRetry (script [] (Resolved (42::nat)))
        (Some (per_field_defaults \<lparr>maxAttempts = Undefined, initialDelay = Num 500,
                 maxDelay = Num 10000, backoffFactor = Num 2\<rparr>))
       = \<lparr>outcome = Returned 42, exit_at = ReturnInTry, invocations = 1, slept = [],
          events = [Invoked 1]\<rparr>
   \<and> withRetry (script [] (Resolved (42::nat)))
        (Some \<lparr>maxAttempts = Undefined, initialDelay = Num 500, maxDelay = Num 10000,
               backoffFactor = Num 2\<rparr>)
       = \<lparr>outcome = Threw Undefined, exit_at = ThrowAfterLoop, invocations = 0, slept = [],
          events = []\<rparr>
   \<and> slept (withRetry (script [] (Rejected (Obj 1 (Some ''timeout'')) :: nat settled))
        (Some (per_field_defaults \<lparr>maxAttempts = Num 3, initialDelay = Undefined,
                 maxDelay = Num 10000, backoffFactor = Num 2\<rparr>)))
       = [Num 1000, Num 2000]
   \<and> slept (withRetry (script [] (Rejected (Obj 1 (Some ''timeout'')) :: nat settled))
        (Some \<lparr>maxAttempts = Num 3, initialDelay = Undefined, maxDelay = Num 10000,
               backoffFactor = Num 2\<rparr>))
       = [Undefined, NaN]"
  by code_simp


end
